theory Spec2Isabelle
  imports Complex_Main "HOL-Library.Sublist"
begin

section \<open>Values shared by the handlers\<close>

text \<open>Strings are lists of 8-bit characters.\<close>

text \<open>
  The result of \<^verbatim>\<open>parseInt\<close> or \<^verbatim>\<open>parseFloat\<close> on a request field: a number, or
  \<open>NaN\<close> when the field is absent or does not start with a number.
\<close>

datatype 'a parsed = NaN | Number 'a

text \<open>\<^verbatim>\<open>parseInt(x) || d\<close>: \<open>NaN\<close> and \<open>0\<close> are falsy, so the default is taken.\<close>

definition or_default :: "int parsed \<Rightarrow> int \<Rightarrow> int" where
  "or_default v d = (case v of NaN \<Rightarrow> d | Number n \<Rightarrow> if n = 0 then d else n)"

text \<open>
  Every error reply is \<^verbatim>\<open>res.status(s).json({ success: false, message: m, ... })\<close>; the
  model keeps the status and the message.
\<close>

datatype failure = Failure (status: nat) (message: string)

section \<open>Products\<close>

text \<open>
  An image is stored either as bytes with a content type
  (\<^verbatim>\<open>{ data: file.buffer, contentType: file.mimetype }\<close>) or as a path or URL string.
\<close>

datatype image = Inline "nat list" string | Reference string

record upload_file =
  filename :: string
  buffer :: "nat list"
  mimetype :: string

text \<open>
  A product document. \<open>product_id\<close> is the document's \<^verbatim>\<open>_id\<close>; \<open>createdAt\<close> and
  \<open>updatedAt\<close> are the store's timestamps, in milliseconds.
\<close>

record product =
  product_id :: nat
  name :: string
  description :: string
  images :: "image list"
  price :: rat
  category :: string
  stock :: int
  isActive :: bool
  createdAt :: int
  updatedAt :: int

text \<open>
  The collection, in insertion order. A handler that changes the collection returns its
  reply together with the new collection. A reply is \<open>Inl\<close> of the failure or \<open>Inr\<close> of the
  data of a success; the data are the stored documents. The last revision of
  routes/productRoutes.js sends each document through \<^verbatim>\<open>toDataUrlProduct\<close>, which turns
  every image, one for one, into a string for transport; that rendering is left out.
\<close>

type_synonym products = "product list"

subsection \<open>The store's queries\<close>

text \<open>
  \<^verbatim>\<open>Product.find(criteria).sort({ createdAt: -1 }).skip(skip).limit(limit)\<close>. The query
  is the store's: it throws (\<open>None\<close>) on a negative skip, reads a negative limit as its
  absolute value and a limit of \<open>0\<close> as no limit. Documents with equal \<open>createdAt\<close> stay
  in insertion order. With a valid page and page size, skip is not negative and limit
  is positive.
\<close>

definition Product_find ::
  "(product \<Rightarrow> bool) \<Rightarrow> int \<Rightarrow> int \<Rightarrow> products \<Rightarrow> product list option" where
  "Product_find criteria skip limit st =
     (if skip < 0 then None
      else let sorted_docs = sort_key (\<lambda>p. - createdAt p) (filter criteria st);
               rest = drop (nat skip) sorted_docs
           in Some (if limit = 0 then rest else take (nat \<bar>limit\<bar>) rest))"

definition countDocuments :: "(product \<Rightarrow> bool) \<Rightarrow> products \<Rightarrow> int" where
  "countDocuments criteria st = int (length (filter criteria st))"

definition findById :: "products \<Rightarrow> nat \<Rightarrow> product option" where
  "findById st i = find (\<lambda>p. product_id p = i) st"

subsection \<open>GET /: the paginated list\<close>

record page_response =
  count :: int
  data :: "product list"
  page :: int
  totalPages :: int
  hasNextPage :: bool
  hasPrevPage :: bool

text \<open>
  \<^verbatim>\<open>router.get('/')\<close> of routes/productRoutes.js and \<^verbatim>\<open>app.get('/api/products')\<close> of
  server.js. The arguments are \<^verbatim>\<open>parseInt(req.query.page)\<close> and
  \<^verbatim>\<open>parseInt(req.query.limit)\<close>. \<^verbatim>\<open>Math.ceil(total / limit)\<close> is the ceiling of the exact
  quotient; \<open>limit\<close> is never \<open>0\<close> here.
\<close>

definition get_all_products :: "products \<Rightarrow> int parsed \<Rightarrow> int parsed \<Rightarrow> failure + page_response" where
  "get_all_products st query_page query_limit =
     (let page = or_default query_page 1;
          limit = or_default query_limit 12;
          skip = (page - 1) * limit
      in case Product_find isActive skip limit st of
           None \<Rightarrow> Inl (Failure 500 ''Error fetching products'')
         | Some found \<Rightarrow>
             let total = countDocuments isActive st
             in Inr \<lparr> count = total, data = found, page = page,
                      totalPages = \<lceil>rat_of_int total / rat_of_int limit\<rceil>,
                      hasNextPage = (page * limit < total),
                      hasPrevPage = (1 < page) \<rparr>)"

subsection \<open>Matching a field against the search text\<close>

text \<open>
  The search handlers hand the text of the URL to the store as
  \<^verbatim>\<open>{ $regex: searchQuery, $options: 'i' }\<close>: the store reads it as a regular
  expression and looks for a match anywhere in the field, ignoring case. The regular
  expression engine is the store's. The handlers take it as the argument \<open>rx\<close>: \<open>rx q\<close> is
  \<open>None\<close> when the store rejects the pattern \<open>q\<close> (the query then throws), and otherwise
  the test that the store applies to a field.

  \<open>regex_i\<close> describes that engine on the patterns made of ordinary ASCII characters and
  the dot: an ordinary character stands for itself in either case, the dot for any
  character but a line feed. On every other pattern \<open>regex_i\<close> is \<open>None\<close> and says nothing.
  \<open>fold_case\<close> is the engine's folding of case on ASCII: the letters A to Z become a to
  z, every other character stays.
\<close>

definition fold_case_char :: "char \<Rightarrow> char" where
  "fold_case_char c =
     (let n = (of_char c :: nat) in if 65 \<le> n \<and> n \<le> 90 then char_of (n + 32) else c)"

definition fold_case :: "string \<Rightarrow> string" where
  "fold_case s = map fold_case_char s"

definition regex_metacharacters :: "char list" where
  "regex_metacharacters =
     [CHR 0x5C, CHR ''^'', CHR ''$'', CHR ''.'', CHR ''|'', CHR ''?'', CHR ''*'', CHR ''+'',
      CHR ''('', CHR '')'', CHR ''['', CHR '']'', CHR ''{'', CHR ''}'']"

datatype regex_atom = Literal char | AnyChar

fun regex_parse :: "string \<Rightarrow> regex_atom list option" where
  "regex_parse [] = Some []"
| "regex_parse (c # cs) =
     (if c = CHR ''.'' then map_option ((#) AnyChar) (regex_parse cs)
      else if c \<in> set regex_metacharacters \<or> 128 \<le> (of_char c :: nat) then None
      else map_option ((#) (Literal c)) (regex_parse cs))"

fun atom_matches :: "regex_atom \<Rightarrow> char \<Rightarrow> bool" where
  "atom_matches (Literal c) d = (fold_case_char c = fold_case_char d)"
| "atom_matches AnyChar d = (d \<noteq> CHR 0x0A)"

fun matches_here :: "regex_atom list \<Rightarrow> string \<Rightarrow> bool" where
  "matches_here [] s = True"
| "matches_here (a # as) [] = False"
| "matches_here (a # as) (d # ds) = (atom_matches a d \<and> matches_here as ds)"

fun matches_somewhere :: "regex_atom list \<Rightarrow> string \<Rightarrow> bool" where
  "matches_somewhere as [] = matches_here as []"
| "matches_somewhere as (d # ds) = (matches_here as (d # ds) \<or> matches_somewhere as ds)"

definition regex_i :: "string \<Rightarrow> (string \<Rightarrow> bool) option" where
  "regex_i q = map_option matches_somewhere (regex_parse q)"




subsection \<open>GET /search/:query\<close>

record search_response = page_response +
  searchQuery :: string

text \<open>\<^verbatim>\<open>router.get('/search/:query')\<close> of routes/productRoutes.js (the paginated revision).\<close>

definition search_products ::
  "(string \<Rightarrow> (string \<Rightarrow> bool) option) \<Rightarrow> products \<Rightarrow> string \<Rightarrow> int parsed \<Rightarrow> int parsed
     \<Rightarrow> failure + search_response" where
  "search_products rx st query query_page query_limit =
     (let page = or_default query_page 1;
          limit = or_default query_limit 12;
          skip = (page - 1) * limit
      in case rx query of
           None \<Rightarrow> Inl (Failure 500 ''Error searching products'')
         | Some m \<Rightarrow>
             (let criteria = (\<lambda>p. isActive p \<and> (m (name p) \<or> m (description p) \<or> m (category p)))
              in (case Product_find criteria skip limit st of
                    None \<Rightarrow> Inl (Failure 500 ''Error searching products'')
                  | Some found \<Rightarrow>
                      (let total = countDocuments criteria st
                       in Inr \<lparr> count = total, data = found, page = page,
                                totalPages = \<lceil>rat_of_int total / rat_of_int limit\<rceil>,
                                hasNextPage = (page * limit < total),
                                hasPrevPage = (1 < page),
                                searchQuery = query \<rparr>))))"

text \<open>
  \<^verbatim>\<open>app.get('/api/products/search/:query')\<close> of server.js: the same, with the criteria on
  \<open>name\<close> and \<open>description\<close> only.
\<close>

definition server_search_products ::
  "(string \<Rightarrow> (string \<Rightarrow> bool) option) \<Rightarrow> products \<Rightarrow> string \<Rightarrow> int parsed \<Rightarrow> int parsed
     \<Rightarrow> failure + search_response" where
  "server_search_products rx st query query_page query_limit =
     (let page = or_default query_page 1;
          limit = or_default query_limit 12;
          skip = (page - 1) * limit
      in case rx query of
           None \<Rightarrow> Inl (Failure 500 ''Error searching products'')
         | Some m \<Rightarrow>
             (let criteria = (\<lambda>p. isActive p \<and> (m (name p) \<or> m (description p)))
              in (case Product_find criteria skip limit st of
                    None \<Rightarrow> Inl (Failure 500 ''Error searching products'')
                  | Some found \<Rightarrow>
                      (let total = countDocuments criteria st
                       in Inr \<lparr> count = total, data = found, page = page,
                                totalPages = \<lceil>rat_of_int total / rat_of_int limit\<rceil>,
                                hasNextPage = (page * limit < total),
                                hasPrevPage = (1 < page),
                                searchQuery = query \<rparr>))))"

subsection \<open>The schema\<close>

text \<open>
  The handlers leave the checks of the fields to the Product schema, models/Product.js,
  which is not among the sources. The definitions of this subsection that say what the
  schema accepts are written from the specification's data model: the name has at most
  100 characters and the description at most 1000, the price and the stock are numbers
  that are not negative, the category is one of a fixed set (the argument \<open>cats\<close>), and a
  new product has at least one image and is active.

  \<open>product_doc\<close> is the object handed to \<^verbatim>\<open>Product.create\<close>; server.js hands over no
  category.
\<close>

record product_doc =
  doc_name :: string
  doc_description :: string
  doc_images :: "image list"
  doc_price :: "rat parsed"
  doc_category :: "string option"
  doc_stock :: "int parsed"

text \<open>The store gives a new document an identifier that no document has.\<close>

definition fresh_id :: "products \<Rightarrow> nat" where
  "fresh_id st = Suc (fold max (map product_id st) 0)"

text \<open>
  Modelled from the spec: the Product schema of models/Product.js, which
  \<^verbatim>\<open>Product.create\<close> applies. It throws (\<open>None\<close>) when a number is \<open>NaN\<close>, the category is
  missing or a constraint fails; otherwise the new document is stored, active, with the
  time \<open>now\<close> of the store's clock as \<open>createdAt\<close> and \<open>updatedAt\<close>.
\<close>

definition Product_create ::
  "string list \<Rightarrow> int \<Rightarrow> products \<Rightarrow> product_doc \<Rightarrow> (product \<times> products) option" where
  "Product_create cats now st doc =
     (case (doc_price doc, doc_category doc, doc_stock doc) of
        (Number x, Some c, Number k) \<Rightarrow>
          if length (doc_name doc) \<le> 100 \<and> length (doc_description doc) \<le> 1000
             \<and> doc_images doc \<noteq> [] \<and> 0 \<le> x \<and> c \<in> set cats \<and> 0 \<le> k
          then let p = \<lparr> product_id = fresh_id st, name = doc_name doc,
                           description = doc_description doc, images = doc_images doc,
                           price = x, category = c, stock = k, isActive = True,
                           createdAt = now, updatedAt = now \<rparr>
               in Some (p, st @ [p])
          else None
      | _ \<Rightarrow> None)"

text \<open>
  An update document: the keys of the object handed to \<^verbatim>\<open>findByIdAndUpdate\<close>. \<open>None\<close> is
  a key that the object does not have.
\<close>

record update_doc =
  set_name :: "string option"
  set_description :: "string option"
  set_images :: "image list option"
  set_price :: "rat parsed option"
  set_category :: "string option"
  set_stock :: "int parsed option"
  set_isActive :: "bool option"

definition no_update :: update_doc where
  "no_update = \<lparr> set_name = None, set_description = None, set_images = None,
                  set_price = None, set_category = None, set_stock = None,
                  set_isActive = None \<rparr>"

text \<open>
  Modelled from the spec: the Product schema of models/Product.js, as an update meets
  it. A \<open>NaN\<close> cannot be cast to a number; the validators look at the keys that the
  update has.
\<close>

definition cast_ok :: "update_doc \<Rightarrow> bool" where
  "cast_ok u \<longleftrightarrow> set_price u \<noteq> Some NaN \<and> set_stock u \<noteq> Some NaN"

definition validators_ok :: "string list \<Rightarrow> update_doc \<Rightarrow> bool" where
  "validators_ok cats u \<longleftrightarrow>
     (case set_name u of None \<Rightarrow> True | Some n \<Rightarrow> length n \<le> 100)
   \<and> (case set_description u of None \<Rightarrow> True | Some d \<Rightarrow> length d \<le> 1000)
   \<and> (case set_price u of Some (Number x) \<Rightarrow> 0 \<le> x | _ \<Rightarrow> True)
   \<and> (case set_category u of None \<Rightarrow> True | Some c \<Rightarrow> c \<in> set cats)
   \<and> (case set_stock u of Some (Number k) \<Rightarrow> 0 \<le> k | _ \<Rightarrow> True)"

definition apply_update :: "update_doc \<Rightarrow> product \<Rightarrow> product" where
  "apply_update u p =
     p \<lparr> name := (case set_name u of None \<Rightarrow> name p | Some n \<Rightarrow> n),
         description := (case set_description u of None \<Rightarrow> description p | Some d \<Rightarrow> d),
         images := (case set_images u of None \<Rightarrow> images p | Some is \<Rightarrow> is),
         price := (case set_price u of Some (Number x) \<Rightarrow> x | _ \<Rightarrow> price p),
         category := (case set_category u of None \<Rightarrow> category p | Some c \<Rightarrow> c),
         stock := (case set_stock u of Some (Number k) \<Rightarrow> k | _ \<Rightarrow> stock p),
         isActive := (case set_isActive u of None \<Rightarrow> isActive p | Some b \<Rightarrow> b) \<rparr>"

text \<open>
  Modelled from the spec: the timestamps are set by the store. An update stamps the
  document with the time \<open>now\<close> of the store's clock as \<open>updatedAt\<close>.
\<close>

definition stamped_update :: "update_doc \<Rightarrow> int \<Rightarrow> product \<Rightarrow> product" where
  "stamped_update u now p = (apply_update u p) \<lparr> updatedAt := now \<rparr>"

text \<open>The first document with the identifier is replaced by its updated version.\<close>

fun update_first :: "nat \<Rightarrow> update_doc \<Rightarrow> int \<Rightarrow> products \<Rightarrow> (product \<times> products) option" where
  "update_first i u now [] = None"
| "update_first i u now (p # ps) =
     (if product_id p = i then Some (stamped_update u now p, stamped_update u now p # ps)
      else map_option (\<lambda>(q, ps'). (q, p # ps')) (update_first i u now ps))"

text \<open>
  \<^verbatim>\<open>Product.findByIdAndUpdate(id, update, { new: true, runValidators })\<close>: it throws when
  the update cannot be cast or, with \<open>runValidators\<close>, when a validator fails; it is
  \<^verbatim>\<open>null\<close> when no document has the identifier; otherwise it is the updated document.
\<close>

datatype update_outcome = Throws | Null | Updated product products

definition findByIdAndUpdate ::
  "string list \<Rightarrow> bool \<Rightarrow> int \<Rightarrow> products \<Rightarrow> nat \<Rightarrow> update_doc \<Rightarrow> update_outcome" where
  "findByIdAndUpdate cats runValidators now st i u =
     (if \<not> cast_ok u \<or> (runValidators \<and> \<not> validators_ok cats u) then Throws
      else case update_first i u now st of
             None \<Rightarrow> Null
           | Some (p, st') \<Rightarrow> Updated p st')"

subsection \<open>GET /:id\<close>

text \<open>
  The identifier of the URL is \<open>None\<close> when it cannot be read as an identifier of the
  store; the query then throws.
\<close>

definition get_single_product :: "products \<Rightarrow> nat option \<Rightarrow> failure + product" where
  "get_single_product st params_id =
     (case params_id of
        None \<Rightarrow> Inl (Failure 500 ''Error fetching product'')
      | Some i \<Rightarrow>
          (case findById st i of
             None \<Rightarrow> Inl (Failure 404 ''Product not found'')
           | Some product \<Rightarrow> Inr product))"

subsection \<open>POST /\<close>

text \<open>
  The fields of the multipart form, with \<^verbatim>\<open>parseFloat(price)\<close> and
  \<^verbatim>\<open>parseInt(stock)\<close> already taken. \<^verbatim>\<open>req.files\<close> is \<open>None\<close> when the request carried no
  file list at all.
\<close>

record product_body =
  req_name :: string
  req_description :: string
  req_price :: "rat parsed"
  req_category :: string
  req_stock :: "int parsed"

text \<open>\<^verbatim>\<open>router.post('/')\<close> of routes/productRoutes.js; images are stored as bytes.\<close>

definition create_product ::
  "string list \<Rightarrow> int \<Rightarrow> products \<Rightarrow> product_body \<Rightarrow> upload_file list option
     \<Rightarrow> (failure + product) \<times> products" where
  "create_product cats now st body files =
     (case files of
        None \<Rightarrow> (Inl (Failure 400 ''At least one image is required''), st)
      | Some fs \<Rightarrow>
          if length fs = 0 then (Inl (Failure 400 ''At least one image is required''), st)
          else
            (let imgs = map (\<lambda>file. Inline (buffer file) (mimetype file)) fs
             in (case Product_create cats now st
                        \<lparr> doc_name = req_name body, doc_description = req_description body,
                          doc_images = imgs, doc_price = req_price body,
                          doc_category = Some (req_category body),
                          doc_stock = req_stock body \<rparr> of
                   None \<Rightarrow> (Inl (Failure 400 ''Error creating product''), st)
                 | Some (product, st') \<Rightarrow> (Inr product, st'))))"

text \<open>
  \<^verbatim>\<open>app.post('/api/products')\<close> of server.js: \<open>upload_err\<close> is the error of the upload
  step, if any; the category is not passed on (so a schema that requires a category
  rejects what this handler creates).
\<close>

definition server_create_product ::
  "string list \<Rightarrow> int \<Rightarrow> products \<Rightarrow> string option \<Rightarrow> product_body \<Rightarrow> upload_file list option
     \<Rightarrow> (failure + product) \<times> products" where
  "server_create_product cats now st upload_err body files =
     (case upload_err of
        Some err \<Rightarrow> (Inl (Failure 400 ''File upload error''), st)
      | None \<Rightarrow>
         (case files of
            None \<Rightarrow> (Inl (Failure 400 ''At least one image is required''), st)
          | Some fs \<Rightarrow>
              if length fs = 0 then (Inl (Failure 400 ''At least one image is required''), st)
              else
                (let imgs = map (\<lambda>file. Inline (buffer file) (mimetype file)) fs
                 in (case Product_create cats now st
                            \<lparr> doc_name = req_name body, doc_description = req_description body,
                              doc_images = imgs, doc_price = req_price body,
                              doc_category = None, doc_stock = req_stock body \<rparr> of
                       None \<Rightarrow> (Inl (Failure 400 ''Error creating product''), st)
                     | Some (product, st') \<Rightarrow> (Inr product, st')))))"

subsection \<open>PUT /:id\<close>

text \<open>
  The object \<^verbatim>\<open>updateData\<close> as the handlers first build it: in routes/productRoutes.js
  from all five fields, in server.js without the category.
\<close>

definition updateData_of :: "product_body \<Rightarrow> update_doc" where
  "updateData_of body =
     no_update \<lparr> set_name := Some (req_name body),
                 set_description := Some (req_description body),
                 set_price := Some (req_price body),
                 set_category := Some (req_category body),
                 set_stock := Some (req_stock body) \<rparr>"

definition server_updateData_of :: "product_body \<Rightarrow> update_doc" where
  "server_updateData_of body =
     no_update \<lparr> set_name := Some (req_name body),
                 set_description := Some (req_description body),
                 set_price := Some (req_price body),
                 set_stock := Some (req_stock body) \<rparr>"

text \<open>\<^verbatim>\<open>router.put('/:id')\<close> of routes/productRoutes.js (the revision with binary images).\<close>

definition update_product ::
  "string list \<Rightarrow> int \<Rightarrow> products \<Rightarrow> nat option \<Rightarrow> product_body \<Rightarrow> upload_file list option
     \<Rightarrow> (failure + product) \<times> products" where
  "update_product cats now st params_id body files =
     (case params_id of
        None \<Rightarrow> (Inl (Failure 400 ''Error updating product''), st)
      | Some i \<Rightarrow>
          let updateData = updateData_of body;
              updateData =
                (case files of
                   None \<Rightarrow> updateData
                 | Some fs \<Rightarrow>
                     if length fs > 0 then
                       (let newImages = map (\<lambda>file. Inline (buffer file) (mimetype file)) fs
                        in (case findById st i of
                              Some existingProduct \<Rightarrow>
                                updateData \<lparr> set_images := Some (images existingProduct @ newImages) \<rparr>
                            | None \<Rightarrow> updateData \<lparr> set_images := Some newImages \<rparr>))
                     else updateData)
          in (case findByIdAndUpdate cats True now st i updateData of
                Throws \<Rightarrow> (Inl (Failure 400 ''Error updating product''), st)
              | Null \<Rightarrow> (Inl (Failure 404 ''Product not found''), st)
              | Updated product st' \<Rightarrow> (Inr product, st')))"

text \<open>
  \<^verbatim>\<open>app.put('/api/products/:id')\<close> of server.js: the category is not part of the update,
  new images are stored as paths, and nothing is done about images when the product does
  not exist.
\<close>

definition server_update_product ::
  "string list \<Rightarrow> int \<Rightarrow> products \<Rightarrow> string option \<Rightarrow> nat option \<Rightarrow> product_body
     \<Rightarrow> upload_file list option \<Rightarrow> (failure + product) \<times> products" where
  "server_update_product cats now st upload_err params_id body files =
     (case upload_err of
        Some err \<Rightarrow> (Inl (Failure 400 ''File upload error''), st)
      | None \<Rightarrow>
         (case params_id of
            None \<Rightarrow> (Inl (Failure 400 ''Error updating product''), st)
          | Some i \<Rightarrow>
              let updateData = server_updateData_of body;
                  updateData =
                    (case files of
                       None \<Rightarrow> updateData
                     | Some fs \<Rightarrow>
                         if length fs > 0 then
                           (let newImages = map (\<lambda>file. Reference (''/uploads/'' @ filename file)) fs
                            in (case findById st i of
                                  Some existingProduct \<Rightarrow>
                                    updateData \<lparr> set_images := Some (images existingProduct @ newImages) \<rparr>
                                | None \<Rightarrow> updateData))
                         else updateData)
              in (case findByIdAndUpdate cats True now st i updateData of
                    Throws \<Rightarrow> (Inl (Failure 400 ''Error updating product''), st)
                  | Null \<Rightarrow> (Inl (Failure 404 ''Product not found''), st)
                  | Updated product st' \<Rightarrow> (Inr product, st'))))"

subsection \<open>DELETE /:id\<close>

text \<open>
  \<^verbatim>\<open>router.delete('/:id')\<close> of routes/productRoutes.js and
  \<^verbatim>\<open>app.delete('/api/products/:id')\<close> of server.js: the soft delete. The reply to a
  success is the message alone. In the handlers that write, \<open>now\<close> is the time of the
  store's clock at the call.
\<close>

definition delete_product ::
  "string list \<Rightarrow> int \<Rightarrow> products \<Rightarrow> nat option \<Rightarrow> (failure + string) \<times> products" where
  "delete_product cats now st params_id =
     (case params_id of
        None \<Rightarrow> (Inl (Failure 500 ''Error deleting product''), st)
      | Some i \<Rightarrow>
          (case findByIdAndUpdate cats False now st i
                  (no_update \<lparr> set_isActive := Some False \<rparr>) of
             Throws \<Rightarrow> (Inl (Failure 500 ''Error deleting product''), st)
           | Null \<Rightarrow> (Inl (Failure 404 ''Product not found''), st)
           | Updated product st' \<Rightarrow> (Inr ''Product deleted successfully'', st')))"

section \<open>Users\<close>

record user =
  user_id :: nat
  user_name :: string
  email :: string
  phone :: string
  zipcode :: string
  password :: string
  role :: string
  user_isActive :: bool

type_synonym users = "user list"

text \<open>
  What routes/authRoutes.js takes from the language and its libraries: \<open>toLowerCase\<close> is
  the string method \<^verbatim>\<open>email.toLowerCase()\<close> of JavaScript, \<open>bcrypt_hash\<close> is
  \<^verbatim>\<open>bcrypt.hash(password, 10)\<close> with the salt of this call, \<open>bcrypt_compare\<close> is
  \<^verbatim>\<open>bcrypt.compare\<close>, and \<open>jwt_sign\<close> signs the identifier and the role into a token that
  lasts four hours. The handlers are defined for every such environment.
\<close>

record auth_env =
  toLowerCase :: "string \<Rightarrow> string"
  bcrypt_hash :: "string \<Rightarrow> string"
  bcrypt_compare :: "string \<Rightarrow> string \<Rightarrow> bool"
  jwt_sign :: "nat \<Rightarrow> string \<Rightarrow> string"

text \<open>A field of the JSON body is falsy when it is absent or the empty string.\<close>

definition falsy :: "string option \<Rightarrow> bool" where
  "falsy v \<longleftrightarrow> (case v of None \<Rightarrow> True | Some s \<Rightarrow> s = [])"

text \<open>The store gives a new user an identifier that no user has.\<close>

definition fresh_user_id :: "users \<Rightarrow> nat" where
  "fresh_user_id st = Suc (fold max (map user_id st) 0)"

text \<open>
  Modelled from the spec: the User schema of models/User.js, which is not among the
  sources. A new user is active; the store refuses (\<open>None\<close>) a second user with the same
  email.
\<close>

definition User_create ::
  "users \<Rightarrow> string \<Rightarrow> string \<Rightarrow> string \<Rightarrow> string \<Rightarrow> string \<Rightarrow> string \<Rightarrow> (user \<times> users) option" where
  "User_create st n e ph z pw r =
     (if \<exists>u \<in> set st. email u = e then None
      else let u = \<lparr> user_id = fresh_user_id st, user_name = n, email = e, phone = ph,
                      zipcode = z, password = pw, role = r, user_isActive = True \<rparr>
           in Some (u, st @ [u]))"

text \<open>The reply to a registration or a login: the message, the user's data, the token.\<close>

datatype auth_reply =
  AuthReply (reply_message: string) (reply_id: nat) (reply_name: string)
            (reply_email: string) (reply_role: string) (reply_token: string)

subsection \<open>POST /register\<close>

record register_body =
  reg_name :: "string option"
  reg_email :: "string option"
  reg_phone :: "string option"
  reg_zipcode :: "string option"
  reg_password :: "string option"

definition register ::
  "auth_env \<Rightarrow> users \<Rightarrow> register_body \<Rightarrow> (failure + auth_reply) \<times> users" where
  "register env st body =
     (if falsy (reg_name body) \<or> falsy (reg_email body) \<or> falsy (reg_phone body)
         \<or> falsy (reg_zipcode body) \<or> falsy (reg_password body)
      then (Inl (Failure 400 ''All fields are required''), st)
      else
        (case (reg_name body, reg_email body, reg_phone body, reg_zipcode body,
               reg_password body) of
           (Some n, Some e, Some ph, Some z, Some pw) \<Rightarrow>
             (case find (\<lambda>u. email u = toLowerCase env e) st of
                Some existing \<Rightarrow> (Inl (Failure 409 ''Email already in use''), st)
              | None \<Rightarrow>
                  (let hashed = bcrypt_hash env pw
                   in (case User_create st n (toLowerCase env e) ph z hashed ''user'' of
                         None \<Rightarrow> (Inl (Failure 500 ''Registration error''), st)
                       | Some (u, st') \<Rightarrow>
                           (let token = jwt_sign env (user_id u) (role u)
                            in (Inr (AuthReply ''Registered successfully'' (user_id u)
                                       (user_name u) (email u) (role u) token), st')))))
         | _ \<Rightarrow> (Inl (Failure 400 ''All fields are required''), st)))"

subsection \<open>POST /login\<close>

record login_body =
  login_email :: "string option"
  login_password :: "string option"

definition login :: "auth_env \<Rightarrow> users \<Rightarrow> login_body \<Rightarrow> failure + auth_reply" where
  "login env st body =
     (if falsy (login_email body) \<or> falsy (login_password body)
      then Inl (Failure 400 ''Email and password are required'')
      else
        (case (login_email body, login_password body) of
           (Some e, Some pw) \<Rightarrow>
             (case find (\<lambda>u. email u = toLowerCase env e \<and> user_isActive u) st of
                None \<Rightarrow> Inl (Failure 401 ''Invalid credentials'')
              | Some u \<Rightarrow>
                  if \<not> bcrypt_compare env pw (password u)
                  then Inl (Failure 401 ''Invalid credentials'')
                  else
                    (let token = jwt_sign env (user_id u) (role u)
                     in Inr (AuthReply ''Login successful'' (user_id u) (user_name u)
                               (email u) (role u) token)))
         | _ \<Rightarrow> Inl (Failure 400 ''Email and password are required'')))"

section \<open>The properties in the words of the specification\<close>

text \<open>Page and page size are valid when, after the defaults, both are at least \<open>1\<close>.\<close>

definition valid_paging :: "int parsed \<Rightarrow> int parsed \<Rightarrow> bool" where
  "valid_paging query_page query_limit \<longleftrightarrow>
     1 \<le> or_default query_page 1 \<and> 1 \<le> or_default query_limit 12"

text \<open>The pagination metadata of a reply, for a page, a page size and a total \<open>n\<close>.\<close>

definition pagination_contract :: "int \<Rightarrow> int \<Rightarrow> int \<Rightarrow> 'a page_response_scheme \<Rightarrow> bool" where
  "pagination_contract pg pageSize n r \<longleftrightarrow>
     count r = n \<and> page r = pg
   \<and> totalPages r = \<lceil>rat_of_int n / rat_of_int pageSize\<rceil>
   \<and> (hasNextPage r \<longleftrightarrow> pg * pageSize < n)
   \<and> (hasPrevPage r \<longleftrightarrow> 1 < pg)"



text \<open>The requested page of a result list, newest first.\<close>

definition page_of :: "int \<Rightarrow> int \<Rightarrow> product list \<Rightarrow> product list" where
  "page_of pg pageSize xs =
     take (nat pageSize) (drop (nat ((pg - 1) * pageSize)) (sort_key (\<lambda>p. - createdAt p) xs))"

text \<open>An update document that the schema accepts: it can be cast and passes the validators.\<close>

definition update_accepted :: "string list \<Rightarrow> update_doc \<Rightarrow> bool" where
  "update_accepted cats u \<longleftrightarrow> cast_ok u \<and> validators_ok cats u"

text \<open>
  Two stores of products are equal up to \<open>updatedAt\<close> when they are equal once every
  \<open>updatedAt\<close> is forgotten.
\<close>

definition forget_updatedAt :: "products \<Rightarrow> products" where
  "forget_updatedAt st = map (\<lambda>p. p \<lparr> updatedAt := 0 \<rparr>) st"

text \<open>The store keeps identifiers unique, and emails lower-cased.\<close>

definition unique_ids :: "products \<Rightarrow> bool" where
  "unique_ids st \<longleftrightarrow> distinct (map product_id st)"

definition emails_lowercase :: "auth_env \<Rightarrow> users \<Rightarrow> bool" where
  "emails_lowercase env st \<longleftrightarrow> list_all (\<lambda>u. toLowerCase env (email u) = email u) st"

text \<open>A registration or login body with every field present and not empty.\<close>

definition complete_registration :: "register_body \<Rightarrow> bool" where
  "complete_registration body \<longleftrightarrow>
     \<not> falsy (reg_name body) \<and> \<not> falsy (reg_email body) \<and> \<not> falsy (reg_phone body)
   \<and> \<not> falsy (reg_zipcode body) \<and> \<not> falsy (reg_password body)"

definition complete_login :: "login_body \<Rightarrow> bool" where
  "complete_login body \<longleftrightarrow> \<not> falsy (login_email body) \<and> \<not> falsy (login_password body)"

section \<open>Example data\<close>

definition headphones :: product where
  "headphones =
     \<lparr> product_id = 1, name = ''Wireless Headphones'',
       description = ''High-quality wireless headphones'',
       images = [Inline [1] ''image/jpeg'', Inline [2] ''image/jpeg''],
       price = 9999 / 100, category = ''Electronics'', stock = 50, isActive = True,
       createdAt = 1000, updatedAt = 1000 \<rparr>"

definition notebook :: product where
  "notebook =
     \<lparr> product_id = 2, name = ''Notebook'', description = ''Ruled paper'',
       images = [Reference ''/uploads/notebook.png''],
       price = 3, category = ''Books'', stock = 7, isActive = True, createdAt = 2000,
       updatedAt = 2000 \<rparr>"

definition lamp :: product where
  "lamp =
     \<lparr> product_id = 3, name = ''Lamp'', description = ''Desk lamp'',
       images = [Inline [7] ''image/png''],
       price = 20, category = ''Home'', stock = 0, isActive = False, createdAt = 3000,
       updatedAt = 3500 \<rparr>"

definition catalog :: products where
  "catalog = [headphones, notebook, lamp]"

definition categories :: "string list" where
  "categories = [''Electronics'', ''Books'', ''Home'']"

definition form_without_price :: product_body where
  "form_without_price =
     \<lparr> req_name = ''Notebook A5'', req_description = ''Ruled paper, 80 pages'',
       req_price = NaN, req_category = ''Books'', req_stock = Number 12 \<rparr>"

definition new_photo :: upload_file where
  "new_photo = \<lparr> filename = ''photo.webp'', buffer = [5, 6], mimetype = ''image/webp'' \<rparr>"

definition notebook_form :: product_body where
  "notebook_form =
     \<lparr> req_name = ''Notebook A5'', req_description = ''Ruled paper, 80 pages'',
       req_price = Number 4, req_category = ''Home'', req_stock = Number 12 \<rparr>"

text \<open>
  An environment for the examples: it lower-cases the letters A to Z, hashes a password
  by putting a fixed prefix before it, and signs a token that names the role.
\<close>

definition demo_env :: auth_env where
  "demo_env =
     \<lparr> toLowerCase = fold_case,
       bcrypt_hash = (\<lambda>pw. ''$2a$10$'' @ pw),
       bcrypt_compare = (\<lambda>pw h. h = ''$2a$10$'' @ pw),
       jwt_sign = (\<lambda>i r. ''token-for-'' @ r) \<rparr>"

definition ann :: user where
  "ann = \<lparr> user_id = 1, user_name = ''Ann'', email = ''ann@example.org'', phone = ''555'',
           zipcode = ''12345'', password = ''$2a$10$secret'', role = ''user'',
           user_isActive = True \<rparr>"

definition bob :: user where
  "bob = \<lparr> user_id = 2, user_name = ''Bob'', email = ''bob@example.org'', phone = ''556'',
           zipcode = ''54321'', password = ''$2a$10$hunter2'', role = ''user'',
           user_isActive = False \<rparr>"

definition ann_again :: register_body where
  "ann_again =
     \<lparr> reg_name = Some ''Ann'', reg_email = Some ''Ann@Example.org'', reg_phone = Some ''555'',
       reg_zipcode = Some ''12345'', reg_password = Some ''other'' \<rparr>"

section \<open>Folding of case\<close>

lemma fold_case_char_idem: "fold_case_char (fold_case_char c) = fold_case_char c"
  unfolding fold_case_char_def Let_def
  by (auto simp: of_char_of [where ?'a = nat])

lemma fold_case_idem: "fold_case (fold_case s) = fold_case s"
  by (simp add: fold_case_def fold_case_char_idem)

section \<open>Pagination\<close>

text \<open>\<open>Math.ceil(t / l)\<close> is the least number of pages of size \<open>l\<close> that hold \<open>t\<close> items.\<close>

lemma ceiling_least:
  assumes "0 < (l::int)"
  shows "\<lceil>rat_of_int t / rat_of_int l\<rceil> \<le> k \<longleftrightarrow> t \<le> k * l"
proof -
  have "\<lceil>rat_of_int t / rat_of_int l\<rceil> \<le> k \<longleftrightarrow> rat_of_int t / rat_of_int l \<le> rat_of_int k"
    by (simp add: ceiling_le_iff)
  also have "\<dots> \<longleftrightarrow> rat_of_int t \<le> rat_of_int k * rat_of_int l"
    using assms by (simp add: pos_divide_le_eq)
  also have "\<dots> \<longleftrightarrow> t \<le> k * l"
    by (metis of_int_le_iff of_int_mult)
  finally show ?thesis .
qed

lemma least_number_of_pages:
  assumes "pagination_contract pg pageSize n r" "0 < pageSize"
  shows "totalPages r \<le> k \<longleftrightarrow> n \<le> k * pageSize"
  using assms by (simp add: pagination_contract_def ceiling_least)

lemma skip_not_negative: "1 \<le> (pg::int) \<Longrightarrow> 1 \<le> l \<Longrightarrow> \<not> (pg - 1) * l < 0"
  by (simp add: not_less)

lemma Product_find_valid:
  assumes "1 \<le> pg" "1 \<le> l"
  shows "Product_find c ((pg - 1) * l) l st = Some (page_of pg l (filter c st))"
  using assms skip_not_negative[OF assms]
  by (simp add: Product_find_def page_of_def Let_def)

text \<open>
  C1. With a valid page and page size, the list and both searches answer with a page,
  and the metadata of the answer are: \<open>count\<close> the number of matching active products,
  \<open>totalPages\<close> the ceiling of \<open>count / pageSize\<close>, \<open>hasNextPage\<close> exactly when
  \<open>page * pageSize < count\<close>, and \<open>hasPrevPage\<close> exactly when \<open>1 < page\<close>. For a search
  the store must have accepted the pattern (\<open>rx query = Some m\<close>).
\<close>

theorem pagination_metadata:
  assumes "valid_paging query_page query_limit"
  shows "(\<exists>r. get_all_products st query_page query_limit = Inr r
            \<and> pagination_contract (or_default query_page 1) (or_default query_limit 12)
                 (int (length (filter isActive st))) r)
       \<and> (\<forall>m. rx query = Some m \<longrightarrow>
            (\<exists>r. search_products rx st query query_page query_limit = Inr r
               \<and> pagination_contract (or_default query_page 1) (or_default query_limit 12)
                    (int (length (filter (\<lambda>p. isActive p \<and> (m (name p) \<or> m (description p)
                                                  \<or> m (category p))) st))) r))
       \<and> (\<forall>m. rx query = Some m \<longrightarrow>
            (\<exists>r. server_search_products rx st query query_page query_limit = Inr r
               \<and> pagination_contract (or_default query_page 1) (or_default query_limit 12)
                    (int (length (filter (\<lambda>p. isActive p \<and> (m (name p) \<or> m (description p)))
                                     st))) r))"
proof -
  from assms have pg: "1 \<le> or_default query_page 1" and l: "1 \<le> or_default query_limit 12"
    by (simp_all add: valid_paging_def)
  have "\<exists>r. get_all_products st query_page query_limit = Inr r
            \<and> pagination_contract (or_default query_page 1) (or_default query_limit 12)
                 (int (length (filter isActive st))) r"
    by (simp add: get_all_products_def Let_def Product_find_valid[OF pg l]
        countDocuments_def pagination_contract_def)
  moreover have "\<exists>r. search_products rx st query query_page query_limit = Inr r
               \<and> pagination_contract (or_default query_page 1) (or_default query_limit 12)
                    (int (length (filter (\<lambda>p. isActive p \<and> (m (name p) \<or> m (description p)
                                                  \<or> m (category p))) st))) r"
    if "rx query = Some m" for m
    using that
    by (simp add: search_products_def Let_def Product_find_valid[OF pg l]
        countDocuments_def pagination_contract_def)
  moreover have "\<exists>r. server_search_products rx st query query_page query_limit = Inr r
               \<and> pagination_contract (or_default query_page 1) (or_default query_limit 12)
                    (int (length (filter (\<lambda>p. isActive p \<and> (m (name p) \<or> m (description p)))
                                     st))) r"
    if "rx query = Some m" for m
    using that
    by (simp add: server_search_products_def Let_def Product_find_valid[OF pg l]
        countDocuments_def pagination_contract_def)
  ultimately show ?thesis by blast
qed

theorem pagination_metadata_witness:
  "valid_paging (Number 2) (Number 1)
   \<and> (\<exists>r. get_all_products catalog (Number 2) (Number 1) = Inr r
          \<and> pagination_contract 2 1 2 r)
   \<and> (\<exists>r. search_products regex_i catalog ''e'' (Number 2) (Number 1) = Inr r
          \<and> pagination_contract 2 1 2 r)
   \<and> (\<exists>r. server_search_products regex_i catalog ''e'' (Number 2) (Number 1) = Inr r
          \<and> pagination_contract 2 1 2 r)"
proof -
  have v: "valid_paging (Number 2) (Number 1)"
    by (simp add: valid_paging_def or_default_def)
  have m: "regex_i ''e'' = Some (matches_somewhere [Literal CHR ''e''])"
    by (simp add: regex_i_def regex_metacharacters_def)
  show ?thesis
    using v m pagination_metadata[OF v, of catalog regex_i "''e''"]
    by (simp add: or_default_def catalog_def headphones_def notebook_def lamp_def
        fold_case_char_def)
qed

section \<open>Search\<close>








section \<open>The store's update\<close>

lemma product_id_apply_update [simp]: "product_id (apply_update u p) = product_id p"
  by (simp add: apply_update_def)

lemma product_id_stamped_update [simp]: "product_id (stamped_update u now p) = product_id p"
  by (simp add: stamped_update_def)

lemma update_first_found:
  "findById st i = Some p \<Longrightarrow> \<exists>st'. update_first i u now st = Some (stamped_update u now p, st')"
  by (induction st) (auto simp: findById_def)

lemma update_first_none: "findById st i = None \<Longrightarrow> update_first i u now st = None"
  by (induction st) (auto simp: findById_def)

lemma update_first_ids:
  "update_first i u now st = Some (q, st') \<Longrightarrow> map product_id st' = map product_id st"
  by (induction st arbitrary: st') (auto split: if_splits)

lemma update_first_findById:
  "update_first i u now st = Some (q, st') \<Longrightarrow>
     findById st' j = (if j = i then Some q else findById st j)"
proof (induction st arbitrary: st')
  case Nil
  then show ?case by simp
next
  case (Cons a st)
  then show ?case by (auto simp: findById_def split: if_splits)
qed

lemma update_first_members:
  "update_first i u now st = Some (q, st') \<Longrightarrow> distinct (map product_id st) \<Longrightarrow> x \<in> set st' \<Longrightarrow>
     x = q \<or> (x \<in> set st \<and> product_id x \<noteq> i)"
proof (induction st arbitrary: st')
  case Nil
  then show ?case by simp
next
  case (Cons a st)
  show ?case
  proof (cases "product_id a = i")
    case True
    with Cons.prems have "st' = stamped_update u now a # st" "q = stamped_update u now a" by auto
    moreover from True Cons.prems(2) have "\<forall>y \<in> set st. product_id y \<noteq> i"
      by (auto simp: image_iff)
    ultimately show ?thesis using Cons.prems(3) by auto
  next
    case False
    with Cons.prems(1) obtain ps where ps: "update_first i u now st = Some (q, ps)" "st' = a # ps"
      by auto
    with Cons.IH[OF ps(1)] Cons.prems(2,3) False show ?thesis by auto
  qed
qed

lemma findById_member:
  "distinct (map product_id st) \<Longrightarrow> p \<in> set st \<Longrightarrow> findById st (product_id p) = Some p"
  by (induction st) (auto simp: findById_def)

section \<open>Soft delete and the listings\<close>

lemma Product_find_subset:
  "Product_find c skip limit st = Some xs \<Longrightarrow> x \<in> set xs \<Longrightarrow> x \<in> set st \<and> c x"
proof -
  assume a: "Product_find c skip limit st = Some xs" and x: "x \<in> set xs"
  let ?s = "sort_key (\<lambda>p. - createdAt p) (filter c st)"
  from a have "set xs \<subseteq> set (drop (nat skip) ?s)"
    by (auto simp: Product_find_def Let_def split: if_splits dest: in_set_takeD)
  also have "\<dots> \<subseteq> set ?s" by (rule set_drop_subset)
  finally have "x \<in> set ?s" using x by blast
  then show ?thesis by simp
qed

lemma get_all_products_data:
  "get_all_products st qp ql = Inr r \<Longrightarrow> x \<in> set (data r) \<Longrightarrow> x \<in> set st \<and> isActive x"
  by (auto simp: get_all_products_def Let_def split: option.splits dest: Product_find_subset)

lemma search_products_data:
  "search_products rx st q qp ql = Inr r \<Longrightarrow> x \<in> set (data r) \<Longrightarrow> x \<in> set st \<and> isActive x"
  by (auto simp: search_products_def Let_def split: option.splits dest: Product_find_subset)

lemma server_search_products_data:
  "server_search_products rx st q qp ql = Inr r \<Longrightarrow> x \<in> set (data r) \<Longrightarrow> x \<in> set st \<and> isActive x"
  by (auto simp: server_search_products_def Let_def split: option.splits dest: Product_find_subset)

lemma soft_delete_doc [simp]:
  "cast_ok (no_update \<lparr> set_isActive := Some False \<rparr>)"
  "stamped_update (no_update \<lparr> set_isActive := Some False \<rparr>) now p
     = p \<lparr> isActive := False, updatedAt := now \<rparr>"
  by (simp_all add: cast_ok_def no_update_def apply_update_def stamped_update_def)

lemma delete_product_existing:
  assumes "findById st i = Some p"
  shows "\<exists>st'. delete_product cats now st (Some i) = (Inr ''Product deleted successfully'', st')
           \<and> update_first i (no_update \<lparr> set_isActive := Some False \<rparr>) now st
               = Some (p \<lparr> isActive := False, updatedAt := now \<rparr>, st')"
  using update_first_found[OF assms, of "no_update \<lparr> set_isActive := Some False \<rparr>" now]
  by (auto simp: delete_product_def findByIdAndUpdate_def)

text \<open>
  C4. In a store with unique identifiers, the soft delete of a product \<open>p\<close> of the store
  succeeds, and afterwards no page of the list or of a search holds \<open>p\<close>, or any product
  with its identifier. And on every store, every product on a page of the list or of a
  search is active.
\<close>

theorem soft_delete_hides_product:
  assumes "unique_ids st" and "p \<in> set st"
  shows "(\<exists>st'. delete_product cats now st (Some (product_id p))
                 = (Inr ''Product deleted successfully'', st')
           \<and> (\<forall>qp ql r. get_all_products st' qp ql = Inr r \<longrightarrow>
                 p \<notin> set (data r)
               \<and> (\<forall>x \<in> set (data r). isActive x \<and> product_id x \<noteq> product_id p))
           \<and> (\<forall>rx q qp ql r. search_products rx st' q qp ql = Inr r \<longrightarrow>
                 p \<notin> set (data r)
               \<and> (\<forall>x \<in> set (data r). isActive x \<and> product_id x \<noteq> product_id p))
           \<and> (\<forall>rx q qp ql r. server_search_products rx st' q qp ql = Inr r \<longrightarrow>
                 p \<notin> set (data r)
               \<and> (\<forall>x \<in> set (data r). isActive x \<and> product_id x \<noteq> product_id p)))
       \<and> (\<forall>s qp ql r. get_all_products s qp ql = Inr r \<longrightarrow>
             (\<forall>x \<in> set (data r). isActive x))
       \<and> (\<forall>s rx q qp ql r. search_products rx s q qp ql = Inr r \<longrightarrow>
             (\<forall>x \<in> set (data r). isActive x))
       \<and> (\<forall>s rx q qp ql r. server_search_products rx s q qp ql = Inr r \<longrightarrow>
             (\<forall>x \<in> set (data r). isActive x))"
proof -
  from assms have d: "distinct (map product_id st)" and f: "findById st (product_id p) = Some p"
    by (simp_all add: unique_ids_def findById_member)
  from delete_product_existing[OF f] obtain st' where
    del: "delete_product cats now st (Some (product_id p))
            = (Inr ''Product deleted successfully'', st')"
    and upd: "update_first (product_id p) (no_update \<lparr> set_isActive := Some False \<rparr>) now st
               = Some (p \<lparr> isActive := False, updatedAt := now \<rparr>, st')"
    by blast
  have gone: "product_id x \<noteq> product_id p" if "x \<in> set st'" "isActive x" for x
    using update_first_members[OF upd d that(1)] that(2) by auto
  have "p \<notin> set (data r) \<and> (\<forall>x \<in> set (data r). isActive x \<and> product_id x \<noteq> product_id p)"
    if "get_all_products st' qp ql = Inr r" for qp ql r
    using get_all_products_data[OF that] gone by blast
  moreover have "p \<notin> set (data r) \<and> (\<forall>x \<in> set (data r). isActive x \<and> product_id x \<noteq> product_id p)"
    if "search_products rx st' q qp ql = Inr r" for rx q qp ql r
    using search_products_data[OF that] gone by blast
  moreover have "p \<notin> set (data r) \<and> (\<forall>x \<in> set (data r). isActive x \<and> product_id x \<noteq> product_id p)"
    if "server_search_products rx st' q qp ql = Inr r" for rx q qp ql r
    using server_search_products_data[OF that] gone by blast
  ultimately have A: "\<exists>st'. delete_product cats now st (Some (product_id p))
                 = (Inr ''Product deleted successfully'', st')
           \<and> (\<forall>qp ql r. get_all_products st' qp ql = Inr r \<longrightarrow>
                 p \<notin> set (data r)
               \<and> (\<forall>x \<in> set (data r). isActive x \<and> product_id x \<noteq> product_id p))
           \<and> (\<forall>rx q qp ql r. search_products rx st' q qp ql = Inr r \<longrightarrow>
                 p \<notin> set (data r)
               \<and> (\<forall>x \<in> set (data r). isActive x \<and> product_id x \<noteq> product_id p))
           \<and> (\<forall>rx q qp ql r. server_search_products rx st' q qp ql = Inr r \<longrightarrow>
                 p \<notin> set (data r)
               \<and> (\<forall>x \<in> set (data r). isActive x \<and> product_id x \<noteq> product_id p))"
    using del by blast
  have B: "\<forall>s qp ql r. get_all_products s qp ql = Inr r \<longrightarrow> (\<forall>x \<in> set (data r). isActive x)"
    using get_all_products_data by blast
  have C: "\<forall>s rx q qp ql r. search_products rx s q qp ql = Inr r \<longrightarrow>
           (\<forall>x \<in> set (data r). isActive x)"
    using search_products_data by blast
  have D: "\<forall>s rx q qp ql r. server_search_products rx s q qp ql = Inr r \<longrightarrow>
           (\<forall>x \<in> set (data r). isActive x)"
    using server_search_products_data by blast
  show ?thesis by (rule conjI[OF A conjI[OF B conjI[OF C D]]])
qed

theorem soft_delete_hides_product_witness:
  "unique_ids catalog \<and> headphones \<in> set catalog
   \<and> delete_product categories 5000 catalog (Some (product_id headphones))
       = (Inr ''Product deleted successfully'',
          [headphones \<lparr> isActive := False, updatedAt := 5000 \<rparr>, notebook, lamp])
   \<and> get_all_products [headphones \<lparr> isActive := False, updatedAt := 5000 \<rparr>, notebook, lamp]
         NaN NaN
       = Inr \<lparr> count = 1, data = [notebook], page = 1, totalPages = 1,
               hasNextPage = False, hasPrevPage = False \<rparr>
   \<and> headphones \<notin> set [notebook]"
proof -
  have h1: "unique_ids catalog" by code_simp
  have h2: "headphones \<in> set catalog" by code_simp
  have d: "delete_product categories 5000 catalog (Some (product_id headphones))
       = (Inr ''Product deleted successfully'',
          [headphones \<lparr> isActive := False, updatedAt := 5000 \<rparr>, notebook, lamp])"
    by code_simp
  have g: "get_all_products [headphones \<lparr> isActive := False, updatedAt := 5000 \<rparr>, notebook, lamp]
         NaN NaN
       = Inr \<lparr> count = 1, data = [notebook], page = 1, totalPages = 1,
               hasNextPage = False, hasPrevPage = False \<rparr>"
    by code_simp
  have n: "headphones \<notin> set [notebook]" by code_simp
  from soft_delete_hides_product[OF h1 h2, of categories 5000] h1 h2 d g n
  show ?thesis by blast
qed

section \<open>Creating without images\<close>

text \<open>
  C5. A create request without uploaded images (no file list, or an empty one) is
  answered with status 400 and leaves the store as it was, whatever the other fields
  are. In routes/productRoutes.js, and in server.js when the upload step raised no
  error, the message is that at least one image is required.
\<close>

theorem create_requires_image:
  assumes "files = None \<or> files = Some []"
  shows "create_product cats now st body files
           = (Inl (Failure 400 ''At least one image is required''), st)
       \<and> server_create_product cats now st None body files
           = (Inl (Failure 400 ''At least one image is required''), st)
       \<and> (\<exists>m. server_create_product cats now st upload_err body files
                 = (Inl (Failure 400 m), st))"
  using assms
  by (auto simp: create_product_def server_create_product_def split: option.splits)

theorem create_requires_image_witness:
  "create_product categories 4000 catalog notebook_form (Some [])
       = (Inl (Failure 400 ''At least one image is required''), catalog)
   \<and> server_create_product categories 4000 catalog None notebook_form (Some [])
       = (Inl (Failure 400 ''At least one image is required''), catalog)
   \<and> (\<exists>m. server_create_product categories 4000 catalog (Some ''Unexpected field'')
              notebook_form (Some []) = (Inl (Failure 400 m), catalog))"
  using create_requires_image[of "Some []" categories 4000 catalog notebook_form
      "Some ''Unexpected field''"]
  by simp

section \<open>Fetching one product\<close>

text \<open>
  C8. A product that the store finds under an identifier is returned by GET /:id whether
  it is active or not; in particular it is still returned, now inactive, after its soft
  delete.
\<close>

theorem get_by_id_ignores_isActive:
  assumes "findById st i = Some p"
  shows "get_single_product st (Some i) = Inr p
       \<and> (\<exists>st'. delete_product cats now st (Some i) = (Inr ''Product deleted successfully'', st')
                \<and> get_single_product st' (Some i)
                   = Inr (p \<lparr> isActive := False, updatedAt := now \<rparr>))"
proof -
  from delete_product_existing[OF assms] obtain st' where
    del: "delete_product cats now st (Some i) = (Inr ''Product deleted successfully'', st')"
    and upd: "update_first i (no_update \<lparr> set_isActive := Some False \<rparr>) now st
               = Some (p \<lparr> isActive := False, updatedAt := now \<rparr>, st')"
    by blast
  have "get_single_product st' (Some i) = Inr (p \<lparr> isActive := False, updatedAt := now \<rparr>)"
    by (simp add: get_single_product_def update_first_findById[OF upd])
  with del assms show ?thesis by (auto simp: get_single_product_def)
qed

theorem get_by_id_ignores_isActive_witness:
  "findById catalog 3 = Some lamp \<and> \<not> isActive lamp
   \<and> get_single_product catalog (Some 3) = Inr lamp
   \<and> (\<exists>st'. delete_product categories 5000 catalog (Some 3)
                 = (Inr ''Product deleted successfully'', st')
            \<and> get_single_product st' (Some 3)
               = Inr (lamp \<lparr> isActive := False, updatedAt := 5000 \<rparr>))"
proof -
  have h: "findById catalog 3 = Some lamp" by code_simp
  have n: "\<not> isActive lamp" by code_simp
  from get_by_id_ignores_isActive[OF h, of categories 5000] h n show ?thesis by blast
qed

section \<open>Deleting twice\<close>

text \<open>An update changes one document, and leaves those before and after it alone.\<close>

lemma update_first_splits:
  "update_first i u now st = Some (q, st') \<Longrightarrow>
     \<exists>pre a post. st = pre @ a # post \<and> (\<forall>x \<in> set pre. product_id x \<noteq> i)
        \<and> product_id a = i \<and> q = stamped_update u now a \<and> st' = pre @ q # post"
proof (induction st arbitrary: st')
  case Nil
  then show ?case by simp
next
  case (Cons b st)
  show ?case
  proof (cases "product_id b = i")
    case True
    with Cons.prems have "q = stamped_update u now b" "st' = q # st" by auto
    with True have "b # st = [] @ b # st \<and> (\<forall>x \<in> set []. product_id x \<noteq> i)
        \<and> product_id b = i \<and> q = stamped_update u now b \<and> st' = [] @ q # st"
      by simp
    then show ?thesis by blast
  next
    case False
    with Cons.prems obtain ps where ps: "update_first i u now st = Some (q, ps)" "st' = b # ps"
      by auto
    from Cons.IH[OF ps(1)] obtain pre a post where
      d: "st = pre @ a # post" "\<forall>x \<in> set pre. product_id x \<noteq> i" "product_id a = i"
         "q = stamped_update u now a" "ps = pre @ q # post"
      by blast
    with False ps(2) have "b # st = (b # pre) @ a # post
        \<and> (\<forall>x \<in> set (b # pre). product_id x \<noteq> i)
        \<and> product_id a = i \<and> q = stamped_update u now a \<and> st' = (b # pre) @ q # post"
      by simp
    then show ?thesis by blast
  qed
qed

lemma update_first_at:
  "\<forall>x \<in> set pre. product_id x \<noteq> i \<Longrightarrow> product_id a = i \<Longrightarrow>
     update_first i u now (pre @ a # post)
       = Some (stamped_update u now a, pre @ stamped_update u now a # post)"
  by (induction pre) auto

lemma forget_updatedAt_at:
  "forget_updatedAt (pre @ (p \<lparr> updatedAt := t \<rparr>) # post)
     = forget_updatedAt (pre @ (p \<lparr> updatedAt := t' \<rparr>) # post)"
  by (simp add: forget_updatedAt_def)

text \<open>
  C9, amended. The soft delete of an existing product succeeds, and a second soft
  delete of the same identifier succeeds as well. The store after the second call is the
  store after the first but for the \<open>updatedAt\<close> of the deleted product, which is the time
  of the second call: the two stores are equal up to \<open>updatedAt\<close>, and equal exactly when
  the store's clock read the same at both calls.
\<close>

theorem soft_delete_idempotent:
  assumes "findById st i = Some p"
  shows "\<exists>pre post.
           delete_product cats now1 st (Some i)
             = (Inr ''Product deleted successfully'',
                pre @ p \<lparr> isActive := False, updatedAt := now1 \<rparr> # post)
         \<and> delete_product cats now2 (pre @ p \<lparr> isActive := False, updatedAt := now1 \<rparr> # post)
               (Some i)
             = (Inr ''Product deleted successfully'',
                pre @ p \<lparr> isActive := False, updatedAt := now2 \<rparr> # post)
         \<and> forget_updatedAt (pre @ p \<lparr> isActive := False, updatedAt := now2 \<rparr> # post)
             = forget_updatedAt (pre @ p \<lparr> isActive := False, updatedAt := now1 \<rparr> # post)
         \<and> (pre @ p \<lparr> isActive := False, updatedAt := now2 \<rparr> # post
              = pre @ p \<lparr> isActive := False, updatedAt := now1 \<rparr> # post
            \<longleftrightarrow> now2 = now1)"
proof -
  let ?u = "no_update \<lparr> set_isActive := Some False \<rparr>"
  let ?q1 = "p \<lparr> isActive := False, updatedAt := now1 \<rparr>"
  let ?q2 = "p \<lparr> isActive := False, updatedAt := now2 \<rparr>"
  from delete_product_existing[OF assms] obtain st1 where
    del1: "delete_product cats now1 st (Some i) = (Inr ''Product deleted successfully'', st1)"
    and upd1: "update_first i ?u now1 st = Some (?q1, st1)"
    by blast
  from update_first_splits[OF upd1] have
    "\<exists>pre post. (\<forall>x \<in> set pre. product_id x \<noteq> i) \<and> st1 = pre @ ?q1 # post"
    by (elim exE conjE) (intro exI conjI, assumption+)
  then obtain pre post where
    pre: "\<forall>x \<in> set pre. product_id x \<noteq> i" and st1: "st1 = pre @ ?q1 # post"
    by (elim exE conjE)
  from assms have "product_id p = i"
    by (auto simp: findById_def find_Some_iff)
  then have i: "product_id ?q1 = i" by simp
  have "update_first i ?u now2 (pre @ ?q1 # post)
          = Some (stamped_update ?u now2 ?q1, pre @ stamped_update ?u now2 ?q1 # post)"
    by (rule update_first_at[OF pre i])
  then have del2: "delete_product cats now2 (pre @ ?q1 # post) (Some i)
             = (Inr ''Product deleted successfully'', pre @ ?q2 # post)"
    by (simp add: delete_product_def findByIdAndUpdate_def)
  have f: "forget_updatedAt (pre @ ?q2 # post) = forget_updatedAt (pre @ ?q1 # post)"
    by (simp add: forget_updatedAt_def)
  have eq: "pre @ ?q2 # post = pre @ ?q1 # post \<longleftrightarrow> now2 = now1"
  proof
    assume "pre @ ?q2 # post = pre @ ?q1 # post"
    then have "?q2 = ?q1" by simp
    then have "updatedAt ?q2 = updatedAt ?q1" by (rule arg_cong)
    then show "now2 = now1" by simp
  next
    assume "now2 = now1"
    then show "pre @ ?q2 # post = pre @ ?q1 # post" by simp
  qed
  from del1 st1 have del1': "delete_product cats now1 st (Some i)
             = (Inr ''Product deleted successfully'', pre @ ?q1 # post)"
    by simp
  show ?thesis
    by (rule exI[of _ pre], rule exI[of _ post]) (intro conjI del1' del2 f eq)
qed

theorem soft_delete_idempotent_witness:
  "findById catalog 2 = Some notebook
   \<and> (\<exists>pre post.
           delete_product categories 5000 catalog (Some 2)
             = (Inr ''Product deleted successfully'',
                pre @ notebook \<lparr> isActive := False, updatedAt := 5000 \<rparr> # post)
         \<and> delete_product categories 6000
               (pre @ notebook \<lparr> isActive := False, updatedAt := 5000 \<rparr> # post) (Some 2)
             = (Inr ''Product deleted successfully'',
                pre @ notebook \<lparr> isActive := False, updatedAt := 6000 \<rparr> # post)
         \<and> forget_updatedAt (pre @ notebook \<lparr> isActive := False, updatedAt := 6000 \<rparr> # post)
             = forget_updatedAt (pre @ notebook \<lparr> isActive := False, updatedAt := 5000 \<rparr> # post)
         \<and> pre @ notebook \<lparr> isActive := False, updatedAt := 6000 \<rparr> # post
              \<noteq> pre @ notebook \<lparr> isActive := False, updatedAt := 5000 \<rparr> # post)"
proof -
  have h: "findById catalog 2 = Some notebook" by code_simp
  have t: "(6000::int) \<noteq> 5000" by simp
  from soft_delete_idempotent[OF h, of categories 5000 6000] obtain pre post where
    a: "delete_product categories 5000 catalog (Some 2)
             = (Inr ''Product deleted successfully'',
                pre @ notebook \<lparr> isActive := False, updatedAt := 5000 \<rparr> # post)"
    and b: "delete_product categories 6000
               (pre @ notebook \<lparr> isActive := False, updatedAt := 5000 \<rparr> # post) (Some 2)
             = (Inr ''Product deleted successfully'',
                pre @ notebook \<lparr> isActive := False, updatedAt := 6000 \<rparr> # post)"
    and c: "forget_updatedAt (pre @ notebook \<lparr> isActive := False, updatedAt := 6000 \<rparr> # post)
             = forget_updatedAt (pre @ notebook \<lparr> isActive := False, updatedAt := 5000 \<rparr> # post)"
    and d: "(pre @ notebook \<lparr> isActive := False, updatedAt := 6000 \<rparr> # post
              = pre @ notebook \<lparr> isActive := False, updatedAt := 5000 \<rparr> # post)
            \<longleftrightarrow> (6000::int) = 5000"
    by (elim exE conjE)
  from d t have e: "pre @ notebook \<lparr> isActive := False, updatedAt := 6000 \<rparr> # post
              \<noteq> pre @ notebook \<lparr> isActive := False, updatedAt := 5000 \<rparr> # post"
    by (simp only: simp_thms)
  show ?thesis
    by (rule conjI[OF h], rule exI[of _ pre], rule exI[of _ post]) (intro conjI a b c e)
qed

text \<open>
  C9, as stated, fails: the store after the second soft delete is not the store after
  the first. The notebook, deleted at the time 5000 and again at the time 6000, carries
  the later time as \<open>updatedAt\<close>.
\<close>

theorem soft_delete_state_counterexample:
  "delete_product categories 5000 catalog (Some 2)
     = (Inr ''Product deleted successfully'',
        [headphones, notebook \<lparr> isActive := False, updatedAt := 5000 \<rparr>, lamp])
   \<and> delete_product categories 6000
        [headphones, notebook \<lparr> isActive := False, updatedAt := 5000 \<rparr>, lamp] (Some 2)
     = (Inr ''Product deleted successfully'',
        [headphones, notebook \<lparr> isActive := False, updatedAt := 6000 \<rparr>, lamp])
   \<and> [headphones, notebook \<lparr> isActive := False, updatedAt := 6000 \<rparr>, lamp]
     \<noteq> [headphones, notebook \<lparr> isActive := False, updatedAt := 5000 \<rparr>, lamp]"
  by code_simp

section \<open>Updates and images\<close>

lemma set_images_checks [simp]:
  "cast_ok (u \<lparr> set_images := x \<rparr>) = cast_ok u"
  "validators_ok cats (u \<lparr> set_images := x \<rparr>) = validators_ok cats u"
  by (simp_all add: cast_ok_def validators_ok_def)

lemma findByIdAndUpdate_accepted:
  assumes "findById st i = Some p" and "update_accepted cats u"
  shows "\<exists>st'. findByIdAndUpdate cats rv now st i u = Updated (stamped_update u now p) st'
              \<and> findById st' i = Some (stamped_update u now p)"
  using update_first_found[OF assms(1), of u now] assms(2)
  by (auto simp: findByIdAndUpdate_def update_accepted_def update_first_findById)

lemma findByIdAndUpdate_rejected:
  "\<not> update_accepted cats u \<Longrightarrow> findByIdAndUpdate cats True now st i u = Throws"
  by (auto simp: findByIdAndUpdate_def update_accepted_def)

lemma update_accepted_images [simp]:
  "update_accepted cats (u \<lparr> set_images := x \<rparr>) = update_accepted cats u"
  by (simp add: update_accepted_def)

lemma images_stamped_update:
  "images (stamped_update u now p) = (case set_images u of None \<Rightarrow> images p | Some is \<Rightarrow> is)"
  by (simp add: apply_update_def stamped_update_def)

text \<open>
  C3, amended. An update of an existing product that uploads new images (a list that is
  not empty) stores, when the schema accepts the update (price and stock are numbers and
  the validators pass), the old image sequence followed by the new images: its length is
  the old length plus the number of new images. A rejected update is answered with
  status 400 and leaves the store, and so the images, as they were; the sequence never
  shrinks. routes/productRoutes.js stores the new images as bytes, server.js as paths.
\<close>

theorem update_appends_images:
  assumes "findById st i = Some p" and "fs \<noteq> []"
  shows "(if update_accepted cats (updateData_of body)
          then \<exists>p' st'. update_product cats now st (Some i) body (Some fs) = (Inr p', st')
                 \<and> findById st' i = Some p'
                 \<and> images p' = images p @ map (\<lambda>file. Inline (buffer file) (mimetype file)) fs
                 \<and> length (images p') = length (images p) + length fs
          else update_product cats now st (Some i) body (Some fs)
                 = (Inl (Failure 400 ''Error updating product''), st))
       \<and> (if update_accepted cats (server_updateData_of body)
          then \<exists>p' st'. server_update_product cats now st None (Some i) body (Some fs) = (Inr p', st')
                 \<and> findById st' i = Some p'
                 \<and> images p' = images p @ map (\<lambda>file. Reference (''/uploads/'' @ filename file)) fs
                 \<and> length (images p') = length (images p) + length fs
          else server_update_product cats now st None (Some i) body (Some fs)
                 = (Inl (Failure 400 ''Error updating product''), st))"
proof -
  let ?new = "map (\<lambda>file. Inline (buffer file) (mimetype file)) fs"
  let ?u = "(updateData_of body) \<lparr> set_images := Some (images p @ ?new) \<rparr>"
  let ?snew = "map (\<lambda>file. Reference (''/uploads/'' @ filename file)) fs"
  let ?su = "(server_updateData_of body) \<lparr> set_images := Some (images p @ ?snew) \<rparr>"
  have r: "update_product cats now st (Some i) body (Some fs) =
             (case findByIdAndUpdate cats True now st i ?u of
                Throws \<Rightarrow> (Inl (Failure 400 ''Error updating product''), st)
              | Null \<Rightarrow> (Inl (Failure 404 ''Product not found''), st)
              | Updated product st' \<Rightarrow> (Inr product, st'))"
    using assms by (simp add: update_product_def Let_def)
  have s: "server_update_product cats now st None (Some i) body (Some fs) =
             (case findByIdAndUpdate cats True now st i ?su of
                Throws \<Rightarrow> (Inl (Failure 400 ''Error updating product''), st)
              | Null \<Rightarrow> (Inl (Failure 404 ''Product not found''), st)
              | Updated product st' \<Rightarrow> (Inr product, st'))"
    using assms by (simp add: server_update_product_def Let_def)
  have "\<exists>p' st'. update_product cats now st (Some i) body (Some fs) = (Inr p', st')
                 \<and> findById st' i = Some p' \<and> images p' = images p @ ?new
                 \<and> length (images p') = length (images p) + length fs"
    if "update_accepted cats (updateData_of body)"
  proof -
    from that have "update_accepted cats ?u" by simp
    from findByIdAndUpdate_accepted[OF assms(1) this, of True] obtain st' where
      "findByIdAndUpdate cats True now st i ?u = Updated (stamped_update ?u now p) st'"
      "findById st' i = Some (stamped_update ?u now p)" by blast
    then show ?thesis by (simp add: r images_stamped_update)
  qed
  moreover have "update_product cats now st (Some i) body (Some fs)
                 = (Inl (Failure 400 ''Error updating product''), st)"
    if "\<not> update_accepted cats (updateData_of body)"
    using that by (simp add: r findByIdAndUpdate_rejected)
  moreover have "\<exists>p' st'. server_update_product cats now st None (Some i) body (Some fs) = (Inr p', st')
                 \<and> findById st' i = Some p' \<and> images p' = images p @ ?snew
                 \<and> length (images p') = length (images p) + length fs"
    if "update_accepted cats (server_updateData_of body)"
  proof -
    from that have "update_accepted cats ?su" by simp
    from findByIdAndUpdate_accepted[OF assms(1) this, of True] obtain st' where
      "findByIdAndUpdate cats True now st i ?su = Updated (stamped_update ?su now p) st'"
      "findById st' i = Some (stamped_update ?su now p)" by blast
    then show ?thesis by (simp add: s images_stamped_update)
  qed
  moreover have "server_update_product cats now st None (Some i) body (Some fs)
                 = (Inl (Failure 400 ''Error updating product''), st)"
    if "\<not> update_accepted cats (server_updateData_of body)"
    using that by (simp add: s findByIdAndUpdate_rejected)
  ultimately show ?thesis by presburger
qed

theorem update_appends_images_witness:
  "findById catalog 2 = Some notebook \<and> [new_photo] \<noteq> []
   \<and> update_accepted categories (updateData_of notebook_form)
   \<and> (\<exists>p' st'. update_product categories 5000 catalog (Some 2) notebook_form (Some [new_photo])
                   = (Inr p', st')
          \<and> findById st' 2 = Some p'
          \<and> images p' = [Reference ''/uploads/notebook.png'', Inline [5, 6] ''image/webp'']
          \<and> length (images p') = 2)"
proof -
  have h1: "findById catalog 2 = Some notebook" by code_simp
  have h2: "[new_photo] \<noteq> []" by simp
  have a: "update_accepted categories (updateData_of notebook_form)" by code_simp
  have i: "images notebook @ map (\<lambda>file. Inline (buffer file) (mimetype file)) [new_photo]
            = [Reference ''/uploads/notebook.png'', Inline [5, 6] ''image/webp'']"
    by code_simp
  have l: "length (images notebook) + length [new_photo] = 2" by code_simp
  from update_appends_images[OF h1 h2, where cats = categories and body = notebook_form and now = 5000] a
  have "\<exists>p' st'. update_product categories 5000 catalog (Some 2) notebook_form (Some [new_photo])
                   = (Inr p', st')
          \<and> findById st' 2 = Some p'
          \<and> images p' = images notebook @ map (\<lambda>file. Inline (buffer file) (mimetype file)) [new_photo]
          \<and> length (images p') = length (images notebook) + length [new_photo]"
    by presburger
  then show ?thesis using h1 h2 a unfolding i l by blast
qed

text \<open>
  C3, as stated, fails: the update runs the schema's checks. A form without a price
  (\<^verbatim>\<open>parseFloat\<close> of a missing field is \<open>NaN\<close>) that uploads a new photo for the notebook
  is answered with status 400, and the notebook keeps its one image.
\<close>

theorem update_rejected_counterexample:
  "findById catalog 2 = Some notebook \<and> [new_photo] \<noteq> []
   \<and> update_product categories 5000 catalog (Some 2) form_without_price (Some [new_photo])
       = (Inl (Failure 400 ''Error updating product''), catalog)
   \<and> server_update_product categories 5000 catalog None (Some 2) form_without_price
         (Some [new_photo])
       = (Inl (Failure 400 ''Error updating product''), catalog)
   \<and> images notebook = [Reference ''/uploads/notebook.png'']
   \<and> images notebook \<noteq> images notebook @ [Inline [5, 6] ''image/webp'']"
  by code_simp

lemma apply_updateData_of:
  assumes "cast_ok (updateData_of body)"
  shows "images (stamped_update (updateData_of body) now p) = images p"
    and "name (stamped_update (updateData_of body) now p) = req_name body"
    and "description (stamped_update (updateData_of body) now p) = req_description body"
    and "req_price body = Number (price (stamped_update (updateData_of body) now p))"
    and "category (stamped_update (updateData_of body) now p) = req_category body"
    and "req_stock body = Number (stock (stamped_update (updateData_of body) now p))"
    and "isActive (stamped_update (updateData_of body) now p) = isActive p"
  using assms
  by (auto simp: apply_update_def stamped_update_def updateData_of_def no_update_def cast_ok_def
      split: parsed.splits)

lemma apply_server_updateData_of:
  assumes "cast_ok (server_updateData_of body)"
  shows "images (stamped_update (server_updateData_of body) now p) = images p"
    and "name (stamped_update (server_updateData_of body) now p) = req_name body"
    and "description (stamped_update (server_updateData_of body) now p) = req_description body"
    and "req_price body = Number (price (stamped_update (server_updateData_of body) now p))"
    and "category (stamped_update (server_updateData_of body) now p) = category p"
    and "req_stock body = Number (stock (stamped_update (server_updateData_of body) now p))"
    and "isActive (stamped_update (server_updateData_of body) now p) = isActive p"
  using assms
  by (auto simp: apply_update_def stamped_update_def server_updateData_of_def no_update_def cast_ok_def
      split: parsed.splits)

text \<open>
  C10, amended. An update of an existing product without new images (no file list, or an
  empty one) leaves the image sequence as it was. When the schema accepts the update,
  name, description, price and stock take the values of the request; the category takes
  the value of the request in routes/productRoutes.js and stays as it was in server.js.
  A rejected update leaves the store as it was.
\<close>

theorem update_without_images:
  assumes "findById st i = Some p" and "files = None \<or> files = Some []"
  shows "(if update_accepted cats (updateData_of body)
          then \<exists>p' st'. update_product cats now st (Some i) body files = (Inr p', st')
                 \<and> findById st' i = Some p'
                 \<and> images p' = images p
                 \<and> name p' = req_name body \<and> description p' = req_description body
                 \<and> req_price body = Number (price p') \<and> category p' = req_category body
                 \<and> req_stock body = Number (stock p')
          else update_product cats now st (Some i) body files
                 = (Inl (Failure 400 ''Error updating product''), st))
       \<and> (if update_accepted cats (server_updateData_of body)
          then \<exists>p' st'. server_update_product cats now st None (Some i) body files = (Inr p', st')
                 \<and> findById st' i = Some p'
                 \<and> images p' = images p
                 \<and> name p' = req_name body \<and> description p' = req_description body
                 \<and> req_price body = Number (price p') \<and> category p' = category p
                 \<and> req_stock body = Number (stock p')
          else server_update_product cats now st None (Some i) body files
                 = (Inl (Failure 400 ''Error updating product''), st))"
proof -
  let ?u = "updateData_of body"
  let ?su = "server_updateData_of body"
  have r: "update_product cats now st (Some i) body files =
             (case findByIdAndUpdate cats True now st i ?u of
                Throws \<Rightarrow> (Inl (Failure 400 ''Error updating product''), st)
              | Null \<Rightarrow> (Inl (Failure 404 ''Product not found''), st)
              | Updated product st' \<Rightarrow> (Inr product, st'))"
    using assms(2) by (auto simp: update_product_def Let_def)
  have s: "server_update_product cats now st None (Some i) body files =
             (case findByIdAndUpdate cats True now st i ?su of
                Throws \<Rightarrow> (Inl (Failure 400 ''Error updating product''), st)
              | Null \<Rightarrow> (Inl (Failure 404 ''Product not found''), st)
              | Updated product st' \<Rightarrow> (Inr product, st'))"
    using assms(2) by (auto simp: server_update_product_def Let_def)
  have "\<exists>p' st'. update_product cats now st (Some i) body files = (Inr p', st')
                 \<and> findById st' i = Some p'
                 \<and> images p' = images p
                 \<and> name p' = req_name body \<and> description p' = req_description body
                 \<and> req_price body = Number (price p') \<and> category p' = req_category body
                 \<and> req_stock body = Number (stock p')"
    if a: "update_accepted cats ?u"
  proof -
    from a have c: "cast_ok ?u" by (simp add: update_accepted_def)
    from findByIdAndUpdate_accepted[OF assms(1) a, of True] obtain st' where
      "findByIdAndUpdate cats True now st i ?u = Updated (stamped_update ?u now p) st'"
      "findById st' i = Some (stamped_update ?u now p)" by blast
    then show ?thesis using apply_updateData_of[OF c, of now p] by (simp add: r)
  qed
  moreover have "update_product cats now st (Some i) body files
                 = (Inl (Failure 400 ''Error updating product''), st)"
    if "\<not> update_accepted cats ?u"
    using that by (simp add: r findByIdAndUpdate_rejected)
  moreover have "\<exists>p' st'. server_update_product cats now st None (Some i) body files = (Inr p', st')
                 \<and> findById st' i = Some p'
                 \<and> images p' = images p
                 \<and> name p' = req_name body \<and> description p' = req_description body
                 \<and> req_price body = Number (price p') \<and> category p' = category p
                 \<and> req_stock body = Number (stock p')"
    if a: "update_accepted cats ?su"
  proof -
    from a have c: "cast_ok ?su" by (simp add: update_accepted_def)
    from findByIdAndUpdate_accepted[OF assms(1) a, of True] obtain st' where
      "findByIdAndUpdate cats True now st i ?su = Updated (stamped_update ?su now p) st'"
      "findById st' i = Some (stamped_update ?su now p)" by blast
    then show ?thesis using apply_server_updateData_of[OF c, of now p] by (simp add: s)
  qed
  moreover have "server_update_product cats now st None (Some i) body files
                 = (Inl (Failure 400 ''Error updating product''), st)"
    if "\<not> update_accepted cats ?su"
    using that by (simp add: s findByIdAndUpdate_rejected)
  ultimately show ?thesis by presburger
qed

text \<open>
  C10, as stated, fails on server.js: the update there does not carry the category. The
  notebook of category Books, updated with a form whose category is Home, is still of
  category Books.
\<close>

theorem update_category_counterexample:
  "findById catalog 2 = Some notebook \<and> category notebook = ''Books''
   \<and> req_category notebook_form = ''Home''
   \<and> server_update_product categories 5000 catalog None (Some 2) notebook_form None
       = (Inr (notebook \<lparr> name := ''Notebook A5'', description := ''Ruled paper, 80 pages'',
                          price := 4, stock := 12, updatedAt := 5000 \<rparr>),
          [headphones,
           notebook \<lparr> name := ''Notebook A5'', description := ''Ruled paper, 80 pages'',
                      price := 4, stock := 12, updatedAt := 5000 \<rparr>,
           lamp])
   \<and> category (notebook \<lparr> name := ''Notebook A5'', description := ''Ruled paper, 80 pages'',
                          price := 4, stock := 12, updatedAt := 5000 \<rparr>) = ''Books''"
  by code_simp

theorem update_without_images_witness:
  "findById catalog 2 = Some notebook
   \<and> update_accepted categories (updateData_of notebook_form)
   \<and> update_accepted categories (server_updateData_of notebook_form)
   \<and> (\<exists>p' st'. update_product categories 5000 catalog (Some 2) notebook_form (Some []) = (Inr p', st')
          \<and> findById st' 2 = Some p' \<and> images p' = images notebook
          \<and> name p' = ''Notebook A5'' \<and> category p' = ''Home'')
   \<and> (\<exists>p' st'. server_update_product categories 5000 catalog None (Some 2) notebook_form (Some [])
                   = (Inr p', st')
          \<and> findById st' 2 = Some p' \<and> images p' = images notebook
          \<and> name p' = ''Notebook A5'' \<and> category p' = ''Books'')"
proof -
  have h1: "findById catalog 2 = Some notebook" by code_simp
  have h2: "Some [] = None \<or> Some [] = Some ([] :: upload_file list)" by simp
  have a: "update_accepted categories (updateData_of notebook_form)" by code_simp
  have b: "update_accepted categories (server_updateData_of notebook_form)" by code_simp
  have e: "req_name notebook_form = ''Notebook A5''" "req_category notebook_form = ''Home''"
    "category notebook = ''Books''" by code_simp+
  from update_without_images[OF h1 h2, where cats = categories and body = notebook_form and now = 5000] a b
  have "(\<exists>p' st'. update_product categories 5000 catalog (Some 2) notebook_form (Some []) = (Inr p', st')
          \<and> findById st' 2 = Some p' \<and> images p' = images notebook
          \<and> name p' = req_name notebook_form \<and> category p' = req_category notebook_form)
   \<and> (\<exists>p' st'. server_update_product categories 5000 catalog None (Some 2) notebook_form (Some [])
                   = (Inr p', st')
          \<and> findById st' 2 = Some p' \<and> images p' = images notebook
          \<and> name p' = req_name notebook_form \<and> category p' = category notebook)"
    by (simp only: if_True) blast
  then show ?thesis using h1 a b unfolding e by blast
qed

section \<open>Registration\<close>

lemma find_email_lowercase:
  assumes "emails_lowercase env st"
    and "\<exists>u \<in> set st. toLowerCase env (email u) = toLowerCase env e"
  shows "\<exists>u. find (\<lambda>u. email u = toLowerCase env e) st = Some u"
proof -
  from assms obtain u where "u \<in> set st" "email u = toLowerCase env e"
    by (auto simp: emails_lowercase_def list_all_iff)
  then show ?thesis
    by (cases "find (\<lambda>u. email u = toLowerCase env e) st") (auto simp: find_None_iff)
qed

lemma complete_registration_fields:
  assumes "complete_registration body"
  obtains n e ph z pw where "reg_name body = Some n" "reg_email body = Some e"
    "reg_phone body = Some ph" "reg_zipcode body = Some z" "reg_password body = Some pw"
  using assms
  by (auto simp: complete_registration_def falsy_def split: option.splits)

text \<open>A body with a field absent or empty is answered with status 400, whatever the store.\<close>

lemma register_incomplete:
  "\<not> complete_registration body \<Longrightarrow>
     register env st body = (Inl (Failure 400 ''All fields are required''), st)"
  by (auto simp: register_def complete_registration_def)

lemma register_conflict:
  assumes "complete_registration body" and "emails_lowercase env st"
    and "reg_email body = Some e"
    and "\<exists>u \<in> set st. toLowerCase env (email u) = toLowerCase env e"
  shows "register env st body = (Inl (Failure 409 ''Email already in use''), st)"
proof -
  from find_email_lowercase[OF assms(2,4)] obtain u where
    f: "find (\<lambda>u. email u = toLowerCase env e) st = Some u" by blast
  from assms(1) obtain n e' ph z pw where fields: "reg_name body = Some n"
    "reg_email body = Some e'" "reg_phone body = Some ph" "reg_zipcode body = Some z"
    "reg_password body = Some pw"
    by (rule complete_registration_fields)
  with assms(3) have "e' = e" by simp
  with assms(1) fields f show ?thesis
    by (simp add: register_def complete_registration_def)
qed

text \<open>
  C6, amended. In a store whose emails are lower-cased, when a user with the email \<open>e\<close>
  (compared without regard to case) is registered, a register call with \<open>e\<close> in which all
  five fields are present and not empty is answered with status 409 and leaves the store
  as it was. A register call in which a field is absent or empty is answered with status
  400 and leaves the store as it was.
\<close>

theorem register_duplicate_email:
  "(\<not> complete_registration body \<longrightarrow>
      register env st body = (Inl (Failure 400 ''All fields are required''), st))
   \<and> (complete_registration body \<and> emails_lowercase env st \<and> reg_email body = Some e
        \<and> (\<exists>u \<in> set st. toLowerCase env (email u) = toLowerCase env e) \<longrightarrow>
      register env st body = (Inl (Failure 409 ''Email already in use''), st))"
  using register_incomplete register_conflict by blast

lemma register_keeps_lowercase:
  assumes "emails_lowercase env st"
    and "\<forall>s. toLowerCase env (toLowerCase env s) = toLowerCase env s"
  shows "emails_lowercase env (snd (register env st body))"
  using assms
  by (auto simp: register_def User_create_def emails_lowercase_def Let_def
      split: option.splits)

lemma register_created:
  assumes "register env st body = (Inr r, st')"
  shows "\<exists>e u. reg_email body = Some e \<and> u \<in> set st' \<and> email u = toLowerCase env e
            \<and> user_isActive u \<and> st' = st @ [u]"
  using assms
  by (auto simp: register_def User_create_def Let_def split: option.splits if_splits)

theorem register_duplicate_email_witness:
  "emails_lowercase demo_env [ann] \<and> complete_registration ann_again
   \<and> reg_email ann_again = Some ''Ann@Example.org''
   \<and> toLowerCase demo_env (email ann) = toLowerCase demo_env ''Ann@Example.org''
   \<and> register demo_env [ann] ann_again = (Inl (Failure 409 ''Email already in use''), [ann])
   \<and> \<not> complete_registration (ann_again \<lparr> reg_phone := Some '''' \<rparr>)
   \<and> register demo_env [ann] (ann_again \<lparr> reg_phone := Some '''' \<rparr>)
       = (Inl (Failure 400 ''All fields are required''), [ann])"
proof -
  have h1: "emails_lowercase demo_env [ann]" by code_simp
  have h2: "complete_registration ann_again" by code_simp
  have h3: "reg_email ann_again = Some ''Ann@Example.org''" by code_simp
  have h4: "toLowerCase demo_env (email ann) = toLowerCase demo_env ''Ann@Example.org''"
    by code_simp
  then have h5: "\<exists>u \<in> set [ann]. toLowerCase demo_env (email u)
                    = toLowerCase demo_env ''Ann@Example.org''"
    by simp
  have h6: "\<not> complete_registration (ann_again \<lparr> reg_phone := Some '''' \<rparr>)" by code_simp
  from register_duplicate_email[of ann_again demo_env "[ann]" "''Ann@Example.org''"]
    h1 h2 h3 h5
  have w1: "register demo_env [ann] ann_again = (Inl (Failure 409 ''Email already in use''), [ann])"
    by blast
  from register_duplicate_email[of "ann_again \<lparr> reg_phone := Some '''' \<rparr>" demo_env "[ann]"] h6
  have w2: "register demo_env [ann] (ann_again \<lparr> reg_phone := Some '''' \<rparr>)
       = (Inl (Failure 400 ''All fields are required''), [ann])"
    by blast
  from h1 h2 h3 h4 h6 w1 w2 show ?thesis by blast
qed

text \<open>
  C6, as stated, fails: the check of the fields comes first. With Ann registered, a
  second register call with her email and no name is answered with status 400, not 409.
\<close>

theorem register_missing_field_counterexample:
  "toLowerCase demo_env (email ann) = toLowerCase demo_env ''Ann@Example.org''
   \<and> register demo_env [ann] (ann_again \<lparr> reg_name := None \<rparr>)
       = (Inl (Failure 400 ''All fields are required''), [ann])"
  by code_simp

section \<open>Login\<close>

text \<open>A body without an email or a password is answered with status 400.\<close>

lemma login_incomplete:
  "\<not> complete_login body \<Longrightarrow>
     login env st body = Inl (Failure 400 ''Email and password are required'')"
  by (auto simp: login_def complete_login_def)

lemma login_rejected:
  assumes "complete_login body"
    and "login_email body = Some e" and "login_password body = Some pw"
    and "(\<forall>u \<in> set st. \<not> (email u = toLowerCase env e \<and> user_isActive u))
       \<or> (\<exists>u. find (\<lambda>u. email u = toLowerCase env e \<and> user_isActive u) st = Some u
              \<and> \<not> bcrypt_compare env pw (password u))"
  shows "login env st body = Inl (Failure 401 ''Invalid credentials'')"
proof -
  from assms(1-3) have c: "\<not> falsy (login_email body)" "\<not> falsy (login_password body)"
    by (simp_all add: complete_login_def)
  from assms(4) show ?thesis
  proof
    assume "\<forall>u \<in> set st. \<not> (email u = toLowerCase env e \<and> user_isActive u)"
    then have "find (\<lambda>u. email u = toLowerCase env e \<and> user_isActive u) st = None"
      by (simp add: find_None_iff)
    with c assms(2,3) show ?thesis by (simp add: login_def)
  next
    assume "\<exists>u. find (\<lambda>u. email u = toLowerCase env e \<and> user_isActive u) st = Some u
              \<and> \<not> bcrypt_compare env pw (password u)"
    with c assms(2,3) show ?thesis by (auto simp: login_def)
  qed
qed

lemma login_succeeds:
  assumes "complete_login body"
    and "login_email body = Some e" and "login_password body = Some pw"
    and "find (\<lambda>u. email u = toLowerCase env e \<and> user_isActive u) st = Some u"
    and "bcrypt_compare env pw (password u)"
  shows "login env st body
           = Inr (AuthReply ''Login successful'' (user_id u) (user_name u) (email u) (role u)
                    (jwt_sign env (user_id u) (role u)))"
  using assms by (simp add: login_def complete_login_def)

text \<open>
  C7, amended. For an email and a password that are both present and not empty, login
  is answered with status 401 and the message Invalid credentials when no active user
  has the lower-cased email (also when an inactive one has it), and with the same status
  and message when the user found has a password hash that does not match. When the
  email or the password is absent or empty, login is answered with status 400 and
  another message, before any lookup.
\<close>

theorem login_invalid_credentials:
  "(\<not> complete_login body \<longrightarrow>
      login env st body = Inl (Failure 400 ''Email and password are required''))
   \<and> (complete_login body \<and> login_email body = Some e \<and> login_password body = Some pw
        \<and> ((\<forall>u \<in> set st. \<not> (email u = toLowerCase env e \<and> user_isActive u))
           \<or> (\<exists>u. find (\<lambda>u. email u = toLowerCase env e \<and> user_isActive u) st = Some u
                  \<and> \<not> bcrypt_compare env pw (password u))) \<longrightarrow>
      login env st body = Inl (Failure 401 ''Invalid credentials''))"
  using login_incomplete login_rejected by blast

theorem login_invalid_credentials_witness:
  "login demo_env [ann, bob] \<lparr> login_email = Some ''Bob@example.org'',
                                login_password = Some ''hunter2'' \<rparr>
     = Inl (Failure 401 ''Invalid credentials'')
   \<and> bcrypt_compare demo_env ''hunter2'' (password bob) \<and> \<not> user_isActive bob
   \<and> login demo_env [ann, bob] \<lparr> login_email = Some ''ann@example.org'',
                                  login_password = Some ''guess'' \<rparr>
     = Inl (Failure 401 ''Invalid credentials'')
   \<and> login demo_env [ann, bob] \<lparr> login_email = None, login_password = Some ''secret'' \<rparr>
     = Inl (Failure 400 ''Email and password are required'')
   \<and> login demo_env [ann, bob] \<lparr> login_email = Some ''ann@example.org'',
                                  login_password = Some ''secret'' \<rparr>
     = Inr (AuthReply ''Login successful'' 1 ''Ann'' ''ann@example.org'' ''user''
              ''token-for-user'')"
proof -
  let ?b1 = "\<lparr> login_email = Some ''Bob@example.org'', login_password = Some ''hunter2'' \<rparr>"
  let ?b2 = "\<lparr> login_email = Some ''ann@example.org'', login_password = Some ''guess'' \<rparr>"
  let ?b3 = "\<lparr> login_email = None, login_password = Some ''secret'' \<rparr>"
  have c1: "complete_login ?b1" and c2: "complete_login ?b2" and c3: "\<not> complete_login ?b3"
    by code_simp+
  have n1: "\<forall>u \<in> set [ann, bob].
              \<not> (email u = toLowerCase demo_env ''Bob@example.org'' \<and> user_isActive u)"
    by code_simp
  have n2: "find (\<lambda>u. email u = toLowerCase demo_env ''ann@example.org'' \<and> user_isActive u)
              [ann, bob] = Some ann
            \<and> \<not> bcrypt_compare demo_env ''guess'' (password ann)"
    by code_simp
  have w1: "login demo_env [ann, bob] ?b1 = Inl (Failure 401 ''Invalid credentials'')"
    using login_invalid_credentials[of ?b1 demo_env "[ann, bob]" "''Bob@example.org''"
        "''hunter2''"] c1 n1 by simp
  have w2: "login demo_env [ann, bob] ?b2 = Inl (Failure 401 ''Invalid credentials'')"
    using login_invalid_credentials[of ?b2 demo_env "[ann, bob]" "''ann@example.org''"
        "''guess''"] c2 n2 by auto
  have w3: "login demo_env [ann, bob] ?b3 = Inl (Failure 400 ''Email and password are required'')"
    using login_invalid_credentials[of ?b3 demo_env "[ann, bob]"] c3 by blast
  have o: "bcrypt_compare demo_env ''hunter2'' (password bob)" "\<not> user_isActive bob"
    "login demo_env [ann, bob] \<lparr> login_email = Some ''ann@example.org'',
                                  login_password = Some ''secret'' \<rparr>
     = Inr (AuthReply ''Login successful'' 1 ''Ann'' ''ann@example.org'' ''user''
              ''token-for-user'')"
    by code_simp+
  from w1 w2 w3 o show ?thesis by blast
qed

text \<open>
  C7, as stated, fails: the check of the fields comes first. An empty password, which
  matches no hash, and an empty email, which no user has, are both answered with status
  400 and another message.
\<close>

theorem login_missing_field_counterexample:
  "login demo_env [ann] \<lparr> login_email = Some ''ann@example.org'', login_password = Some '''' \<rparr>
     = Inl (Failure 400 ''Email and password are required'')
   \<and> \<not> bcrypt_compare demo_env '''' (password ann)
   \<and> login demo_env [ann] \<lparr> login_email = Some '''', login_password = Some ''secret'' \<rparr>
     = Inl (Failure 400 ''Email and password are required'')
   \<and> find (\<lambda>u. email u = toLowerCase demo_env '''' \<and> user_isActive u) [ann] = None"
  by code_simp

section \<open>What the handlers keep\<close>

text \<open>
  Identifiers stay unique under create, update and delete, and emails stay lower-cased
  under registration when lower-casing a lower-cased string changes nothing, so the
  stores of the theorems above are the stores that the handlers build. Registering the
  same email twice, in whatever case, is a conflict the second time, from any store.
\<close>

lemma fold_max_upper: "a \<le> fold max xs (a::nat) \<and> (\<forall>x \<in> set xs. x \<le> fold max xs a)"
proof (induction xs arbitrary: a)
  case Nil
  show ?case by simp
next
  case (Cons y ys)
  from Cons.IH[of "max y a"] show ?case by auto
qed

lemma fresh_id_new: "fresh_id st \<notin> product_id ` set st"
proof
  assume "fresh_id st \<in> product_id ` set st"
  then have "fresh_id st \<in> set (map product_id st)" by simp
  with fold_max_upper[of 0 "map product_id st"] have "fresh_id st \<le> fold max (map product_id st) 0"
    by blast
  then show False by (simp add: fresh_id_def)
qed

lemma unique_ids_empty: "unique_ids []"
  by (simp add: unique_ids_def)

lemma create_product_keeps_unique_ids:
  "unique_ids st \<Longrightarrow> unique_ids (snd (create_product cats now st body files))"
  using fresh_id_new[of st]
  by (auto simp: create_product_def Product_create_def unique_ids_def Let_def
      split: option.splits parsed.splits if_splits)

lemma findByIdAndUpdate_keeps_ids:
  "findByIdAndUpdate cats rv now st i u = Updated q st' \<Longrightarrow>
     map product_id st' = map product_id st"
  by (auto simp: findByIdAndUpdate_def split: if_splits option.splits dest: update_first_ids)

lemma update_product_keeps_unique_ids:
  "unique_ids st \<Longrightarrow> unique_ids (snd (update_product cats now st params_id body files))"
  by (auto simp: update_product_def unique_ids_def Let_def
      split: option.splits update_outcome.splits dest: findByIdAndUpdate_keeps_ids)

lemma delete_product_keeps_unique_ids:
  "unique_ids st \<Longrightarrow> unique_ids (snd (delete_product cats now st params_id))"
  by (auto simp: delete_product_def unique_ids_def
      split: option.splits update_outcome.splits dest: findByIdAndUpdate_keeps_ids)

lemma emails_lowercase_empty: "emails_lowercase env []"
  by (simp add: emails_lowercase_def)

lemma demo_env_lowercase_idem:
  "toLowerCase demo_env (toLowerCase demo_env s) = toLowerCase demo_env s"
  by (simp add: demo_env_def fold_case_idem)

lemma register_twice:
  assumes "register env st body1 = (Inr r, st1)"
    and "reg_email body1 = Some e1" and "reg_email body2 = Some e2"
    and "toLowerCase env e1 = toLowerCase env e2" and "complete_registration body2"
  shows "register env st1 body2 = (Inl (Failure 409 ''Email already in use''), st1)"
proof -
  from register_created[OF assms(1)] assms(2) obtain u where
    u: "u \<in> set st1" "email u = toLowerCase env e1" by auto
  with assms(4) have "\<exists>u. find (\<lambda>u. email u = toLowerCase env e2) st1 = Some u"
    by (cases "find (\<lambda>u. email u = toLowerCase env e2) st1") (auto simp: find_None_iff)
  then obtain v where f: "find (\<lambda>u. email u = toLowerCase env e2) st1 = Some v" by blast
  from assms(5) obtain n e' ph z pw where fields: "reg_name body2 = Some n"
    "reg_email body2 = Some e'" "reg_phone body2 = Some ph" "reg_zipcode body2 = Some z"
    "reg_password body2 = Some pw"
    by (rule complete_registration_fields)
  with assms(3) have "e' = e2" by simp
  with assms(5) fields f show ?thesis
    by (simp add: register_def complete_registration_def)
qed

end
